theory Spec2Isabelle
  imports Main
begin

section \<open>Python values, exceptions and sequences\<close>

text \<open>
  The development embeds \<^verbatim>\<open>pylearn2/space/__init__.py\<close>. Every \<^verbatim>\<open>raise\<close> and every
  failing \<^verbatim>\<open>assert\<close> of the source is a value \<open>Inl e\<close> of the result type
  \<open>error + 'a\<close>. Only \<open>ValueError\<close> carries its message, since the message of
  \<^verbatim>\<open>Space.format_as\<close> is part of its contract; a message that depends on
  \<^verbatim>\<open>str(batch)\<close> or \<^verbatim>\<open>str(type(...))\<close> is left empty, and the messages of
  NumPy's and Theano's own errors are indicative.
\<close>

datatype error =
    TypeError
  | ValueError string
  | AssertionError
  | NotImplementedError
  | IndexError
  | KeyError
  | AttributeError

text \<open>
  Constructor arguments are dynamically typed. \<open>PyOther\<close> is any object that is neither
  \<^verbatim>\<open>None\<close>, nor an instance of \<^verbatim>\<open>py_integer_types\<close>, nor a sized sequence (a float, say).
\<close>

datatype pyval = PyNone | PyInt int | PySeq "pyval list" | PyOther

text \<open>An axis tag of a \<^verbatim>\<open>Conv2DSpace\<close>: \<^verbatim>\<open>'b'\<close> and \<^verbatim>\<open>'c'\<close> are strings, \<^verbatim>\<open>0\<close> and \<^verbatim>\<open>1\<close> are ints.\<close>

datatype tag = Str string | Num int

abbreviation tag_b :: tag where "tag_b \<equiv> Str ''b''"
abbreviation tag_c :: tag where "tag_c \<equiv> Str ''c''"
abbreviation tag_0 :: tag where "tag_0 \<equiv> Num 0"
abbreviation tag_1 :: tag where "tag_1 \<equiv> Num 1"

text \<open>\<^verbatim>\<open>seq.index(x)\<close>: the first position of \<open>x\<close>, \<^verbatim>\<open>ValueError\<close> when absent.\<close>

fun first_pos :: "'a list \<Rightarrow> 'a \<Rightarrow> nat" where
  "first_pos [] x = 0"
| "first_pos (y # ys) x = (if y = x then 0 else Suc (first_pos ys x))"

definition index :: "'a list \<Rightarrow> 'a \<Rightarrow> error + nat" where
  "index xs x = (if x \<in> set xs then Inr (first_pos xs x)
                 else Inl (ValueError ''x not in sequence''))"

text \<open>
  \<^verbatim>\<open>seq[i]\<close> for a Python int \<open>i\<close>. A sequence of length \<open>n\<close> accepts
  \<open>-n \<le> i < n\<close>, a negative \<open>i\<close> standing for \<open>n + i\<close>; any other index raises
  \<^verbatim>\<open>IndexError\<close>.
\<close>

definition py_nth :: "'a list \<Rightarrow> int \<Rightarrow> 'a" where
  "py_nth xs i = xs ! nat (if i < 0 then int (length xs) + i else i)"

definition getitem :: "'a list \<Rightarrow> int \<Rightarrow> error + 'a" where
  "getitem xs i =
     (if - int (length xs) \<le> i \<and> i < int (length xs) then Inr (py_nth xs i)
      else Inl IndexError)"

text \<open>\<^verbatim>\<open>[f(x) for x in xs]\<close> where \<open>f\<close> may raise: the first failure aborts the comprehension.\<close>

fun map_err :: "('a \<Rightarrow> error + 'b) \<Rightarrow> 'a list \<Rightarrow> error + 'b list" where
  "map_err f [] = Inr []"
| "map_err f (x # xs) =
     (case f x of
        Inl e \<Rightarrow> Inl e
      | Inr y \<Rightarrow> (case map_err f xs of Inl e \<Rightarrow> Inl e | Inr ys \<Rightarrow> Inr (y # ys)))"

lemma map_err_cong [fundef_cong]:
  "xs = ys \<Longrightarrow> (\<And>x. x \<in> set ys \<Longrightarrow> f x = g x) \<Longrightarrow> map_err f xs = map_err g ys"
  by (induction ys arbitrary: xs) (auto split: sum.splits)

text \<open>Sequencing of two steps, the first of which may raise.\<close>

definition bind_err :: "error + 'a \<Rightarrow> ('a \<Rightarrow> error + 'b) \<Rightarrow> error + 'b" where
  "bind_err r f = (case r of Inl e \<Rightarrow> Inl e | Inr x \<Rightarrow> f x)"

text \<open>\<^verbatim>\<open>d[k]\<close> for a dict \<open>d\<close>: \<^verbatim>\<open>KeyError\<close> when the key is absent.\<close>

definition dict_get :: "('k \<rightharpoonup> 'v) \<Rightarrow> 'k \<Rightarrow> error + 'v" where
  "dict_get d k = (case d k of None \<Rightarrow> Inl KeyError | Some v \<Rightarrow> Inr v)"

text \<open>\<^verbatim>\<open>str(n)\<close> and \<^verbatim>\<open>'%d' % n\<close> for a Python int.\<close>

definition digit_char :: "nat \<Rightarrow> char" where
  "digit_char n = ''0123456789'' ! (n mod 10)"

fun str_nat :: "nat \<Rightarrow> string" where
  "str_nat n = (if n < 10 then [digit_char n] else str_nat (n div 10) @ [digit_char n])"

definition str_int :: "int \<Rightarrow> string" where
  "str_int i = (if i < 0 then ''-'' @ str_nat (nat (- i)) else str_nat (nat i))"

text \<open>\<^verbatim>\<open>sep.join(strs)\<close>.\<close>

fun join :: "string \<Rightarrow> string list \<Rightarrow> string" where
  "join sep [] = ''''"
| "join sep [s] = s"
| "join sep (s # t # ts) = s @ sep @ join sep (t # ts)"

section \<open>Space descriptors\<close>

text \<open>
  One constructor per concrete subclass of \<^verbatim>\<open>Space\<close>, holding the attributes that
  \<^verbatim>\<open>__init__\<close> stores. \<open>dim\<close> and \<open>num_channels\<close> are Python ints; \<open>shape\<close> is the
  length-2 sequence of ints that \<^verbatim>\<open>Conv2DSpace.__init__\<close> insists on, written as a
  pair; \<open>axes\<close> is the stored sequence of tags. \<^verbatim>\<open>num_components\<close> is always
  \<^verbatim>\<open>len(components)\<close> and is not stored separately.
\<close>

datatype space =
    VectorSpace (dim: int) (sparse: bool)
  | Conv2DSpace (shape: "int \<times> int") (num_channels: int) (axes: "tag list")
  | CompositeSpace (components: "space list")
  | NullSpace

subsection \<open>Construction\<close>

text \<open>\<^verbatim>\<open>VectorSpace.__init__(self, dim, sparse=False)\<close> stores both arguments and checks nothing.\<close>

definition VectorSpace_init :: "int \<Rightarrow> bool \<Rightarrow> error + space" where
  "VectorSpace_init d sp = Inr (VectorSpace d sp)"

text \<open>
  \<^verbatim>\<open>Conv2DSpace.__init__(self, shape, channels=None, num_channels=None, axes=None)\<close>.
  The checks are in the order of the source; \<^verbatim>\<open>axes\<close>, when given, is a sequence of tags.
\<close>

definition is_py_integer :: "pyval \<Rightarrow> bool" where
  "is_py_integer v = (case v of PyInt _ \<Rightarrow> True | _ \<Rightarrow> False)"





text \<open>\<^verbatim>\<open>CompositeSpace.__init__(self, components)\<close>: a list or tuple of spaces.\<close>

definition CompositeSpace_init :: "space list \<Rightarrow> error + space" where
  "CompositeSpace_init cs = Inr (CompositeSpace cs)"

subsection \<open>Equality, hashing, printing\<close>

text \<open>
  \<^verbatim>\<open>__eq__\<close> of each class. \<^verbatim>\<open>VectorSpace.__eq__\<close> compares the type and \<^verbatim>\<open>dim\<close> only.
\<close>

fun space_eq :: "space \<Rightarrow> space \<Rightarrow> bool" where
  "space_eq (VectorSpace d s) other =
     (case other of VectorSpace d' s' \<Rightarrow> d = d' | _ \<Rightarrow> False)"
| "space_eq (Conv2DSpace shp c ax) other =
     (case other of Conv2DSpace shp' c' ax' \<Rightarrow> shp = shp' \<and> c = c' \<and> ax = ax' | _ \<Rightarrow> False)"
| "space_eq (CompositeSpace cs) other =
     (case other of
        CompositeSpace ds \<Rightarrow> length cs = length ds \<and> list_all2 space_eq cs ds
      | _ \<Rightarrow> False)"
| "space_eq NullSpace other = (case other of NullSpace \<Rightarrow> True | _ \<Rightarrow> False)"

text \<open>
  \<^verbatim>\<open>__hash__\<close> hashes a tuple of the type and some attributes; the model keeps that
  tuple, of which Python's \<^verbatim>\<open>hash\<close> is a function.
\<close>

datatype hash_key =
    HVector int
  | HConv "int \<times> int" int "tag list"
  | HComposite "hash_key list"
  | HNull

fun space_hash :: "space \<Rightarrow> hash_key" where
  "space_hash (VectorSpace d s) = HVector d"
| "space_hash (Conv2DSpace shp c ax) = HConv shp c ax"
| "space_hash (CompositeSpace cs) = HComposite (map space_hash cs)"
| "space_hash NullSpace = HNull"

text \<open>\<^verbatim>\<open>__str__\<close> of each class; \<^verbatim>\<open>str\<close> of the shape tuple is \<^verbatim>\<open>(h, w)\<close>.\<close>

fun str_space :: "space \<Rightarrow> string" where
  "str_space (VectorSpace d s) =
     ''VectorSpace(dim='' @ str_int d @ (if s then '', sparse'' else '''') @ '')''"
| "str_space (Conv2DSpace shp c ax) =
     ''Conv2DSpace{shape=('' @ str_int (fst shp) @ '', '' @ str_int (snd shp) @
     ''),num_channels='' @ str_int c @ ''}''"
| "str_space (CompositeSpace cs) =
     ''CompositeSpace('' @ join '', '' (map str_space cs) @ '')''"
| "str_space NullSpace = ''NullSpace''"

subsection \<open>Total dimension\<close>

text \<open>
  \<^verbatim>\<open>get_total_dimension\<close>. \<^verbatim>\<open>NullSpace\<close> inherits the base method, which raises
  \<^verbatim>\<open>NotImplementedError\<close>; \<^verbatim>\<open>CompositeSpace\<close> sums its components. A
  \<^verbatim>\<open>Conv2DSpace\<close> is taken to have its \<^verbatim>\<open>num_channels\<close> attribute (the method first
  restores it on objects unpickled from old files).
\<close>

fun get_total_dimension :: "space \<Rightarrow> error + int" where
  "get_total_dimension (VectorSpace d s) = Inr d"
| "get_total_dimension (Conv2DSpace shp c ax) = Inr (fst shp * snd shp * c)"
| "get_total_dimension (CompositeSpace cs) =
     (case map_err get_total_dimension cs of
        Inl e \<Rightarrow> Inl e
      | Inr ds \<Rightarrow> Inr (sum_list ds))"
| "get_total_dimension NullSpace = Inl NotImplementedError"

subsection \<open>Restriction of a composite space\<close>

text \<open>
  \<^verbatim>\<open>CompositeSpace.restrict(self, subset)\<close>; the other classes have no such method.
\<close>

definition restrict :: "space \<Rightarrow> int list \<Rightarrow> error + space" where
  "restrict self subs =
     (case self of
        CompositeSpace cs \<Rightarrow>
          (case subs of
             [idx] \<Rightarrow> getitem cs idx
           | _ \<Rightarrow>
             (case map_err (getitem cs) subs of
                Inl e \<Rightarrow> Inl e
              | Inr sel \<Rightarrow> Inr (CompositeSpace sel)))
      | _ \<Rightarrow> Inl AttributeError)"

section \<open>Arrays\<close>

text \<open>
  A NumPy array, and the value that a Theano tensor variable denotes: its shape and its
  elements in row-major (C) order. Every array has as many elements as its shape says.
\<close>

datatype 'a ndarray = NDArray (ashape: "nat list") (adata: "'a list")

definition wf_array :: "'a ndarray \<Rightarrow> bool" where
  "wf_array a = (length (adata a) = prod_list (ashape a))"

definition ndim :: "'a ndarray \<Rightarrow> nat" where
  "ndim a = length (ashape a)"

text \<open>
  Row-major addressing: \<open>ravel shp idx\<close> is the position of the element at the
  multi-index \<open>idx\<close>, and \<open>unravel shp k\<close> is the multi-index of position \<open>k\<close>.
\<close>

fun ravel :: "nat list \<Rightarrow> nat list \<Rightarrow> nat" where
  "ravel (s # shp) (i # idx) = i * prod_list shp + ravel shp idx"
| "ravel shp idx = 0"

fun unravel :: "nat list \<Rightarrow> nat \<Rightarrow> nat list" where
  "unravel [] k = []"
| "unravel (s # shp) k = (k div prod_list shp) # unravel shp (k mod prod_list shp)"

definition in_bounds :: "nat list \<Rightarrow> nat list \<Rightarrow> bool" where
  "in_bounds shp idx = list_all2 (\<lambda>i s. i < s) idx shp"

text \<open>\<^verbatim>\<open>a[idx]\<close> for a full multi-index within bounds.\<close>

definition elem :: "'a ndarray \<Rightarrow> nat list \<Rightarrow> 'a" where
  "elem a idx = adata a ! ravel (ashape a) idx"

text \<open>The array of a given shape whose element at each multi-index is given by \<open>f\<close>.\<close>

definition build :: "nat list \<Rightarrow> (nat list \<Rightarrow> 'a) \<Rightarrow> 'a ndarray" where
  "build shp f = NDArray shp (map (\<lambda>k. f (unravel shp k)) [0..<prod_list shp])"

text \<open>
  \<^verbatim>\<open>np.zeros(shape)\<close> for a list of Python ints: a negative entry is refused.
\<close>

definition np_zeros :: "int list \<Rightarrow> error + ('a::zero) ndarray" where
  "np_zeros shp =
     (if list_all (\<lambda>d. 0 \<le> d) shp
      then Inr (NDArray (map nat shp) (replicate (prod_list (map nat shp)) 0))
      else Inl (ValueError ''negative dimensions are not allowed''))"

text \<open>
  \<^verbatim>\<open>a.transpose(*p)\<close> and, on a tensor variable, \<^verbatim>\<open>a.dimshuffle(*p)\<close>: axis \<open>k\<close>
  of the result is axis \<open>p[k]\<close> of \<open>a\<close>, so the result at multi-index \<open>j\<close> is \<open>a\<close> at
  the multi-index \<open>i\<close> with \<open>i[p[k]] = j[k]\<close>. A \<open>p\<close> that is not a permutation of the
  axes of \<open>a\<close> is refused.
\<close>

definition is_perm :: "nat list \<Rightarrow> nat \<Rightarrow> bool" where
  "is_perm p n = (length p = n \<and> distinct p \<and> list_all (\<lambda>k. k < n) p)"

definition take_axes :: "nat list \<Rightarrow> 'b list \<Rightarrow> 'b list" where
  "take_axes p xs = map (\<lambda>k. xs ! k) p"

definition inv_perm :: "nat list \<Rightarrow> nat list" where
  "inv_perm p = map (first_pos p) [0..<length p]"

definition transpose_array :: "'a ndarray \<Rightarrow> nat list \<Rightarrow> 'a ndarray" where
  "transpose_array a p =
     build (take_axes p (ashape a)) (\<lambda>j. elem a (take_axes (inv_perm p) j))"

definition np_transpose :: "'a ndarray \<Rightarrow> nat list \<Rightarrow> error + 'a ndarray" where
  "np_transpose a p =
     (if is_perm p (ndim a) then Inr (transpose_array a p)
      else Inl (ValueError ''axes don't match array''))"

text \<open>
  \<^verbatim>\<open>a.reshape(shape)\<close> for a list of Python ints: the elements stay in row-major
  order. One entry may be \<open>-1\<close>, to be inferred from the size; the sizes must agree.
\<close>

definition infer_shape :: "nat \<Rightarrow> int list \<Rightarrow> nat list option" where
  "infer_shape n shp =
     (if list_all (\<lambda>d. 0 \<le> d) shp then
        (if prod_list (map nat shp) = n then Some (map nat shp) else None)
      else if length (filter (\<lambda>d. d < 0) shp) = 1 \<and> - 1 \<in> set shp then
        (let known = prod_list (map nat (filter (\<lambda>d. 0 \<le> d) shp)) in
         if 0 < known \<and> n mod known = 0
         then Some (map (\<lambda>d. if d < 0 then n div known else nat d) shp)
         else None)
      else None)"

definition np_reshape :: "'a ndarray \<Rightarrow> int list \<Rightarrow> error + 'a ndarray" where
  "np_reshape a shp =
     (case infer_shape (length (adata a)) shp of
        None \<Rightarrow> Inl (ValueError ''total size of new array must be unchanged'')
      | Some shp' \<Rightarrow> Inr (NDArray shp' (adata a)))"

text \<open>
  The rows of a batch: an array of shape \<open>n # w # rest\<close> is \<open>n\<close> rows of
  \<open>w * prod_list rest\<close> elements each.
\<close>

definition rows_of :: "nat \<Rightarrow> nat \<Rightarrow> 'a list \<Rightarrow> 'a list list" where
  "rows_of n len xs = map (\<lambda>i. take len (drop (i * len) xs)) [0..<n]"

text \<open>
  The bounds of the Python slice \<^verbatim>\<open>start:stop\<close> on an axis of length \<open>w\<close>: negative
  positions count from the end, and both are clipped to the axis.
\<close>

definition clip_pos :: "nat \<Rightarrow> int \<Rightarrow> nat" where
  "clip_pos w i = (if i < 0 then nat (int w + i) else min w (nat i))"

text \<open>\<^verbatim>\<open>a[:, start:stop]\<close>: the columns from \<open>start\<close> up to \<open>stop\<close> of every row.\<close>

definition slice_columns :: "'a ndarray \<Rightarrow> int \<Rightarrow> int \<Rightarrow> error + 'a ndarray" where
  "slice_columns a start stop =
     (case ashape a of
        n # w # rest \<Rightarrow>
          (let lo = clip_pos w start; hi = clip_pos w stop; r = prod_list rest
           in Inr (NDArray (n # (hi - lo) # rest)
                (concat (map (\<lambda>row. take ((hi - lo) * r) (drop (lo * r) row))
                           (rows_of n (w * r) (adata a))))))
      | _ \<Rightarrow> Inl IndexError)"

text \<open>
  \<^verbatim>\<open>concatenate(pieces, axis=1)\<close>: the pieces agree on every axis but the second,
  and row \<open>i\<close> of the result is row \<open>i\<close> of each piece in turn.
\<close>

definition concatenate_axis1 :: "'a ndarray list \<Rightarrow> error + 'a ndarray" where
  "concatenate_axis1 pieces =
     (case pieces of
        [] \<Rightarrow> Inl (ValueError ''need at least one array to concatenate'')
      | a # others \<Rightarrow>
          (case ashape a of
             n # w # rest \<Rightarrow>
               if list_all (\<lambda>b. length (ashape b) = length (ashape a) \<and> hd (ashape b) = n
                                  \<and> drop 2 (ashape b) = rest) others
               then Inr (NDArray (n # sum_list (map (\<lambda>b. ashape b ! 1) pieces) # rest)
                     (concat (map (\<lambda>i. concat (map (\<lambda>b.
                          rows_of n (ashape b ! 1 * prod_list rest) (adata b) ! i) pieces))
                        [0..<n])))
               else Inl (ValueError ''all the input array dimensions except for the concatenation axis must match exactly'')
           | _ \<Rightarrow> Inl (ValueError ''axis 1 is out of bounds'')))"

section \<open>Batches\<close>

text \<open>
  A batch handed to \<^verbatim>\<open>validate\<close> and \<^verbatim>\<open>format_as\<close>: a Theano variable of
  \<^verbatim>\<open>TensorType\<close> or \<^verbatim>\<open>CudaNdarrayType\<close> (\<open>TensorVar\<close>, with the array it denotes), a
  variable of \<^verbatim>\<open>SparseType\<close>, a tuple of batches, \<^verbatim>\<open>None\<close>, or any other object.
  The symbolic operations are identified with the array operations they denote.
\<close>

datatype 'a batch =
    TensorVar "'a ndarray"
  | SparseVar "'a ndarray"
  | TupleB "'a batch list"
  | NoneB
  | OtherB

subsection \<open>Validation\<close>

text \<open>
  The body of the loop \<^verbatim>\<open>for val in get_debug_values(batch)\<close> in
  \<^verbatim>\<open>Conv2DSpace.validate\<close>, for the value of the batch.
\<close>

definition Conv2DSpace_validate_value ::
    "int \<times> int \<Rightarrow> int \<Rightarrow> tag list \<Rightarrow> 'a ndarray \<Rightarrow> error + unit" where
  "Conv2DSpace_validate_value shp c ax val =
     bind_err (index ax tag_c) (\<lambda>d.
     bind_err (getitem (ashape val) (int d)) (\<lambda>actual_channels.
       if int actual_channels \<noteq> c
       then Inl (ValueError (''Expected axis '' @ str_int (int d) @
              '' to be number of channels ('' @ str_int c @ '') but it is '' @
              str_int (int actual_channels)))
       else
     bind_err (index ax tag_0) (\<lambda>d0.
     bind_err (getitem (ashape val) (int d0)) (\<lambda>actual0.
       if int actual0 \<noteq> fst shp then Inl (ValueError [])
       else
     bind_err (index ax tag_1) (\<lambda>d1.
     bind_err (getitem (ashape val) (int d1)) (\<lambda>actual1.
       if int actual1 \<noteq> snd shp then Inl (ValueError [])
       else Inr ()))))))"

text \<open>
  \<^verbatim>\<open>validate\<close> of each class. \<open>dbg\<close> says whether \<^verbatim>\<open>config.compute_test_value\<close> is
  on, in which case \<^verbatim>\<open>get_debug_values(batch)\<close> yields the value of the batch, and
  nothing otherwise. \<^verbatim>\<open>zip\<close> stops at the shorter sequence.
\<close>

fun validate :: "bool \<Rightarrow> space \<Rightarrow> 'a batch \<Rightarrow> error + unit"
  and validate_components :: "bool \<Rightarrow> 'a batch list \<Rightarrow> space list \<Rightarrow> error + unit"
where
  "validate dbg (VectorSpace d sp) batch =
     (case batch of
        TensorVar a \<Rightarrow>
          if sp then Inl TypeError
          else if ndim a \<noteq> 2
          then Inl (ValueError (''VectorSpace batches must be 2D, got '' @
                 str_int (int (ndim a)) @ '' dimensions''))
          else Inr ()
      | SparseVar a \<Rightarrow>
          if \<not> sp then Inl TypeError
          else if ndim a \<noteq> 2
          then Inl (ValueError (''VectorSpace batches must be 2D, got '' @
                 str_int (int (ndim a)) @ '' dimensions''))
          else Inr ()
      | _ \<Rightarrow> Inl TypeError)"
| "validate dbg (Conv2DSpace shp c ax) batch =
     (case batch of
        TensorVar a \<Rightarrow>
          if ndim a \<noteq> 4 then Inl (ValueError [])
          else if dbg then Conv2DSpace_validate_value shp c ax a
          else Inr ()
      | _ \<Rightarrow> Inl TypeError)"
| "validate dbg (CompositeSpace cs) batch =
     (case batch of
        TupleB bs \<Rightarrow>
          if length bs \<noteq> length cs
          then Inl (ValueError (''Expected '' @ str_int (int (length cs)) @
                 '' elements in batch, got '' @ str_int (int (length bs))))
          else validate_components dbg bs cs
      | _ \<Rightarrow> Inl TypeError)"
| "validate dbg NullSpace batch = (case batch of NoneB \<Rightarrow> Inr () | _ \<Rightarrow> Inl TypeError)"
| "validate_components dbg (batch_elem # bs) (component # cs) =
     (case validate dbg component batch_elem of
        Inl e \<Rightarrow> Inl e
      | Inr u \<Rightarrow> validate_components dbg bs cs)"
| "validate_components dbg bs cs = Inr ()"

subsection \<open>Batch size\<close>

text \<open>
  \<^verbatim>\<open>get_batch_size\<close> of each class. \<^verbatim>\<open>safe_zip\<close> raises \<^verbatim>\<open>ValueError\<close> on
  sequences of different lengths.
\<close>

definition batch_shape :: "'a batch \<Rightarrow> error + nat list" where
  "batch_shape data =
     (case data of
        TensorVar a \<Rightarrow> Inr (ashape a)
      | SparseVar a \<Rightarrow> Inr (ashape a)
      | _ \<Rightarrow> Inl AttributeError)"

fun get_batch_size :: "bool \<Rightarrow> space \<Rightarrow> 'a batch \<Rightarrow> error + int"
  and first_nonzero_batch_size :: "bool \<Rightarrow> space list \<Rightarrow> 'a batch list \<Rightarrow> error + int"
where
  "get_batch_size dbg (VectorSpace d sp) data =
     (case validate dbg (VectorSpace d sp) data of
        Inl e \<Rightarrow> Inl e
      | Inr u \<Rightarrow> bind_err (batch_shape data) (\<lambda>dshape.
                 bind_err (getitem dshape 0) (\<lambda>n. Inr (int n))))"
| "get_batch_size dbg (Conv2DSpace shp c ax) data =
     (case validate dbg (Conv2DSpace shp c ax) data of
        Inl e \<Rightarrow> Inl e
      | Inr u \<Rightarrow>
          bind_err (batch_shape data) (\<lambda>dshape.
          bind_err (index ax tag_b) (\<lambda>k.
          bind_err (getitem dshape (int k)) (\<lambda>n. Inr (int n)))))"
| "get_batch_size dbg (CompositeSpace cs) data =
     (case validate dbg (CompositeSpace cs) data of
        Inl e \<Rightarrow> Inl e
      | Inr u \<Rightarrow>
          (case data of
             TupleB ds \<Rightarrow>
               if length ds \<noteq> length cs
               then Inl (ValueError (''Argument 0 has length '' @ str_int (int (length cs)) @
                      '' but argument 1 has length '' @ str_int (int (length ds))))
               else first_nonzero_batch_size dbg cs ds
           | _ \<Rightarrow> Inl TypeError))"
| "get_batch_size dbg NullSpace data =
     (case validate dbg NullSpace data of Inl e \<Rightarrow> Inl e | Inr u \<Rightarrow> Inr 0)"
| "first_nonzero_batch_size dbg (c # cs) (d # ds) =
     (case get_batch_size dbg c d of
        Inl e \<Rightarrow> Inl e
      | Inr b \<Rightarrow> if b \<noteq> 0 then Inr b else first_nonzero_batch_size dbg cs ds)"
| "first_nonzero_batch_size dbg cs ds = Inr 0"

subsection \<open>Origin batches\<close>

text \<open>
  \<^verbatim>\<open>get_origin_batch\<close> returns NumPy values: an array, or a tuple of them for a
  \<^verbatim>\<open>CompositeSpace\<close>. \<^verbatim>\<open>NullSpace\<close> inherits the base method, which raises.
\<close>

datatype 'a npvalue = Array "'a ndarray" | ArrayTuple "'a npvalue list"

fun get_origin_batch :: "space \<Rightarrow> pyval \<Rightarrow> error + ('a::zero) npvalue" where
  "get_origin_batch (VectorSpace d sp) n =
     (case n of
        PyInt k \<Rightarrow> bind_err (np_zeros [k, d]) (\<lambda>z. Inr (Array z))
      | _ \<Rightarrow> Inl TypeError)"
| "get_origin_batch (Conv2DSpace shp c ax) n =
     (case n of
        PyInt k \<Rightarrow>
          if \<not> 0 < k then Inl AssertionError
          else let dims = map_of [(tag_b, k), (tag_0, fst shp), (tag_1, snd shp), (tag_c, c)]
            in bind_err (map_err (dict_get dims) ax) (\<lambda>zshape.
               bind_err (np_zeros zshape) (\<lambda>z. Inr (Array z)))
      | _ \<Rightarrow> Inl TypeError)"
| "get_origin_batch (CompositeSpace cs) n =
     (case map_err (\<lambda>component. get_origin_batch component n) cs of
        Inl e \<Rightarrow> Inl e
      | Inr zs \<Rightarrow> Inr (ArrayTuple zs))"
| "get_origin_batch NullSpace n = Inl NotImplementedError"

section \<open>Format conversion\<close>

subsection \<open>Symbolic operations on batches\<close>

text \<open>\<^verbatim>\<open>batch[:, start:stop]\<close> on a variable.\<close>

definition subtensor :: "'a batch \<Rightarrow> int \<Rightarrow> int \<Rightarrow> error + 'a batch" where
  "subtensor batch start stop =
     (case batch of
        TensorVar a \<Rightarrow> bind_err (slice_columns a start stop) (\<lambda>r. Inr (TensorVar r))
      | SparseVar a \<Rightarrow> bind_err (slice_columns a start stop) (\<lambda>r. Inr (SparseVar r))
      | _ \<Rightarrow> Inl TypeError)"

text \<open>
  \<^verbatim>\<open>batch.dimshuffle(*pattern)\<close> and \<^verbatim>\<open>batch.reshape(shape)\<close>: methods of tensor
  variables only.
\<close>

definition dimshuffle :: "'a batch \<Rightarrow> nat list \<Rightarrow> error + 'a batch" where
  "dimshuffle batch pattern =
     (case batch of
        TensorVar a \<Rightarrow> bind_err (np_transpose a pattern) (\<lambda>r. Inr (TensorVar r))
      | _ \<Rightarrow> Inl AttributeError)"

definition reshape :: "'a batch \<Rightarrow> int list \<Rightarrow> error + 'a batch" where
  "reshape batch shp =
     (case batch of
        TensorVar a \<Rightarrow> bind_err (np_reshape a shp) (\<lambda>r. Inr (TensorVar r))
      | _ \<Rightarrow> Inl AttributeError)"

text \<open>\<^verbatim>\<open>T.concatenate(pieces, axis=1)\<close>: every piece must be a tensor variable.\<close>

definition tensor_value :: "'a batch \<Rightarrow> error + 'a ndarray" where
  "tensor_value batch = (case batch of TensorVar a \<Rightarrow> Inr a | _ \<Rightarrow> Inl TypeError)"

definition concatenate :: "'a batch list \<Rightarrow> error + 'a batch" where
  "concatenate pieces =
     bind_err (map_err tensor_value pieces) (\<lambda>arrays.
     bind_err (concatenate_axis1 arrays) (\<lambda>r. Inr (TensorVar r)))"

subsection \<open>The conversions of each class\<close>

text \<open>
  The message of the \<^verbatim>\<open>ValueError\<close> that \<^verbatim>\<open>Space.format_as\<close> raises when the total
  dimensions differ.
\<close>

definition dimension_message :: "space \<Rightarrow> int \<Rightarrow> space \<Rightarrow> int \<Rightarrow> string" where
  "dimension_message self my_dimension space other_dimension =
     str_space self @ '' with total dimension '' @ str_int my_dimension @
     '' can't format a batch into '' @ str_space space @
     ''because its total dimension is '' @ str_int other_dimension"

text \<open>
  The \<^verbatim>\<open>Conv2DSpace\<close> branch of \<^verbatim>\<open>VectorSpace._format_as\<close>: a reshape, preceded by a
  reshape in batch-leading order and a shuffle when the batch axis does not come first.
\<close>

definition VectorSpace_format_as_Conv2DSpace ::
    "'a batch \<Rightarrow> int \<times> int \<Rightarrow> int \<Rightarrow> tag list \<Rightarrow> error + 'a batch" where
  "VectorSpace_format_as_Conv2DSpace batch shp c ax =
     bind_err (batch_shape batch) (\<lambda>bshape.
     bind_err (getitem bshape 0) (\<lambda>n.
       let dims = map_of [(tag_b, int n), (tag_c, c), (tag_0, fst shp), (tag_1, snd shp)] in
     bind_err (getitem ax 0) (\<lambda>ax0.
       if ax0 \<noteq> tag_b then
         let tmp_axes = tag_b # filter (\<lambda>axis. axis \<noteq> tag_b) ax in
         bind_err (map_err (dict_get dims) tmp_axes) (\<lambda>tshape.
         bind_err (reshape batch tshape) (\<lambda>reshaped.
         bind_err (map_err (index tmp_axes) ax) (\<lambda>pattern.
           dimshuffle reshaped pattern)))
       else
         bind_err (map_err (dict_get dims) ax) (\<lambda>tshape. reshape batch tshape))))"

text \<open>\<^verbatim>\<open>Conv2DSpace.convert\<close> (symbolic) and \<^verbatim>\<open>Conv2DSpace.convert_numpy\<close>.\<close>

definition convert :: "'a batch \<Rightarrow> tag list \<Rightarrow> tag list \<Rightarrow> error + 'a batch" where
  "convert tensor src_axes dst_axes =
     (if length src_axes \<noteq> 4 then Inl AssertionError
      else if length dst_axes \<noteq> 4 then Inl AssertionError
      else if src_axes = dst_axes then Inr tensor
      else bind_err (map_err (index src_axes) dst_axes) (\<lambda>shuffle.
             dimshuffle tensor shuffle))"

definition convert_numpy :: "'a ndarray \<Rightarrow> tag list \<Rightarrow> tag list \<Rightarrow> error + 'a ndarray" where
  "convert_numpy tensor src_axes dst_axes =
     (if length src_axes \<noteq> 4 then Inl AssertionError
      else if length dst_axes \<noteq> 4 then Inl AssertionError
      else if src_axes = dst_axes then Inr tensor
      else bind_err (map_err (index src_axes) dst_axes) (\<lambda>shuffle.
             np_transpose tensor shuffle))"

text \<open>\<^verbatim>\<open>Conv2DSpace._format_as\<close>.\<close>

definition Conv2DSpace_format_as ::
    "bool \<Rightarrow> int \<times> int \<Rightarrow> int \<Rightarrow> tag list \<Rightarrow> 'a batch \<Rightarrow> space \<Rightarrow> error + 'a batch" where
  "Conv2DSpace_format_as dbg shp c ax batch space =
     bind_err (validate dbg (Conv2DSpace shp c ax) batch) (\<lambda>u.
       case space of
         VectorSpace d sp \<Rightarrow>
           bind_err (getitem ax 0) (\<lambda>ax0.
           bind_err
             (if ax0 \<noteq> tag_b then
                let new_axes = tag_b # filter (\<lambda>axis. axis \<noteq> tag_b) ax in
                bind_err (map_err (index ax) new_axes) (\<lambda>pattern. dimshuffle batch pattern)
              else Inr batch) (\<lambda>batch'.
           bind_err (batch_shape batch') (\<lambda>bshape.
           bind_err (getitem bshape 0) (\<lambda>n.
           bind_err (get_total_dimension (Conv2DSpace shp c ax)) (\<lambda>total.
             reshape batch' [int n, total])))))
       | Conv2DSpace shp' c' ax' \<Rightarrow> convert batch ax ax'
       | _ \<Rightarrow> Inl NotImplementedError)"

text \<open>\<^verbatim>\<open>Conv2DSpace.np_format_as\<close>, on a NumPy array; it does not validate.\<close>

definition Conv2DSpace_np_format_as ::
    "int \<times> int \<Rightarrow> int \<Rightarrow> tag list \<Rightarrow> 'a ndarray \<Rightarrow> space \<Rightarrow> error + 'a ndarray" where
  "Conv2DSpace_np_format_as shp c ax batch space =
     (case space of
         VectorSpace d sp \<Rightarrow>
           bind_err (getitem ax 0) (\<lambda>ax0.
           bind_err
             (if ax0 \<noteq> tag_b then
                let new_axes = tag_b # filter (\<lambda>axis. axis \<noteq> tag_b) ax in
                bind_err (map_err (index ax) new_axes) (\<lambda>pattern. np_transpose batch pattern)
              else Inr batch) (\<lambda>batch'.
           bind_err (getitem (ashape batch') 0) (\<lambda>n.
           bind_err (get_total_dimension (Conv2DSpace shp c ax)) (\<lambda>total.
             np_reshape batch' [int n, total]))))
       | Conv2DSpace shp' c' ax' \<Rightarrow> convert_numpy batch ax ax'
       | _ \<Rightarrow> Inl NotImplementedError)"

text \<open>\<^verbatim>\<open>NullSpace._format_as\<close>.\<close>

definition NullSpace_format_as :: "bool \<Rightarrow> 'a batch \<Rightarrow> space \<Rightarrow> error + 'a batch" where
  "NullSpace_format_as dbg batch space =
     bind_err (validate dbg NullSpace batch) (\<lambda>u.
       case space of NullSpace \<Rightarrow> Inr NoneB | _ \<Rightarrow> Inl AssertionError)"

text \<open>
  \<^verbatim>\<open>Space.format_as\<close>, with \<^verbatim>\<open>VectorSpace._format_as\<close> and
  \<^verbatim>\<open>CompositeSpace._format_as\<close>, which call it back on the components. The two
  \<open>pieces\<close> functions are the loops of those methods: the first carries \<^verbatim>\<open>pos\<close>,
  the second runs over \<^verbatim>\<open>zip(self.components, batch)\<close>.
\<close>

function format_as :: "bool \<Rightarrow> space \<Rightarrow> 'a batch \<Rightarrow> space \<Rightarrow> error + 'a batch"
  and VectorSpace_format_as :: "bool \<Rightarrow> int \<Rightarrow> bool \<Rightarrow> 'a batch \<Rightarrow> space \<Rightarrow> error + 'a batch"
  and VectorSpace_pieces :: "bool \<Rightarrow> 'a batch \<Rightarrow> int \<Rightarrow> space list \<Rightarrow> error + 'a batch list"
  and CompositeSpace_format_as :: "bool \<Rightarrow> space list \<Rightarrow> 'a batch \<Rightarrow> space \<Rightarrow> error + 'a batch"
  and CompositeSpace_pieces :: "bool \<Rightarrow> space list \<Rightarrow> 'a batch list \<Rightarrow> error + 'a batch list"
where
  "format_as dbg self batch space =
     (case validate dbg self batch of
        Inl e \<Rightarrow> Inl e
      | Inr u \<Rightarrow>
     (case get_total_dimension self of
        Inl e \<Rightarrow> Inl e
      | Inr my_dimension \<Rightarrow>
     (case get_total_dimension space of
        Inl e \<Rightarrow> Inl e
      | Inr other_dimension \<Rightarrow>
          if my_dimension \<noteq> other_dimension
          then Inl (ValueError (dimension_message self my_dimension space other_dimension))
          else if space_eq self space then Inr batch
          else (case self of
                  VectorSpace d sp \<Rightarrow> VectorSpace_format_as dbg d sp batch space
                | Conv2DSpace shp c ax \<Rightarrow> Conv2DSpace_format_as dbg shp c ax batch space
                | CompositeSpace cs \<Rightarrow> CompositeSpace_format_as dbg cs batch space
                | NullSpace \<Rightarrow> NullSpace_format_as dbg batch space))))"
| "VectorSpace_format_as dbg d sp batch space =
     (case space of
        CompositeSpace cs \<Rightarrow>
          (case VectorSpace_pieces dbg batch 0 cs of
             Inl e \<Rightarrow> Inl e
           | Inr pieces \<Rightarrow> Inr (TupleB pieces))
      | Conv2DSpace shp c ax \<Rightarrow> VectorSpace_format_as_Conv2DSpace batch shp c ax
      | _ \<Rightarrow> Inl NotImplementedError)"
| "VectorSpace_pieces dbg batch pos [] = Inr []"
| "VectorSpace_pieces dbg batch pos (component # rest) =
     (case get_total_dimension component of
        Inl e \<Rightarrow> Inl e
      | Inr width \<Rightarrow>
     (case subtensor batch pos (pos + width) of
        Inl e \<Rightarrow> Inl e
      | Inr sub \<Rightarrow>
     (case format_as dbg (VectorSpace width False) sub component of
        Inl e \<Rightarrow> Inl e
      | Inr formatted \<Rightarrow>
     (case VectorSpace_pieces dbg batch (pos + width) rest of
        Inl e \<Rightarrow> Inl e
      | Inr pieces \<Rightarrow> Inr (formatted # pieces)))))"
| "CompositeSpace_format_as dbg cs batch space =
     (case space of
        VectorSpace d sp \<Rightarrow>
          (case batch of
             TupleB bs \<Rightarrow>
               (case CompositeSpace_pieces dbg cs bs of
                  Inl e \<Rightarrow> Inl e
                | Inr pieces \<Rightarrow> concatenate pieces)
           | _ \<Rightarrow> Inl TypeError)
      | _ \<Rightarrow> Inl NotImplementedError)"
| "CompositeSpace_pieces dbg [] bs = Inr []"
| "CompositeSpace_pieces dbg (component # cs) [] = Inr []"
| "CompositeSpace_pieces dbg (component # cs) (input_piece # bs) =
     (case get_total_dimension component of
        Inl e \<Rightarrow> Inl e
      | Inr width \<Rightarrow>
     (case format_as dbg component input_piece (VectorSpace width False) of
        Inl e \<Rightarrow> Inl e
      | Inr formatted \<Rightarrow>
     (case CompositeSpace_pieces dbg cs bs of
        Inl e \<Rightarrow> Inl e
      | Inr pieces \<Rightarrow> Inr (formatted # pieces))))"
  by pat_completeness auto

termination
  by (relation "measure (\<lambda>x. case x of
      Inl (Inl (dbg, self, batch, space)) \<Rightarrow> 4 * (size self + size space) + 3
    | Inl (Inr (dbg, d, sp, batch, space)) \<Rightarrow> 4 * size space + 2
    | Inr (Inl (dbg, batch, pos, cs)) \<Rightarrow> 4 * size_list size cs + 4
    | Inr (Inr (Inl (dbg, cs, batch, space))) \<Rightarrow>
        4 * (Suc (size_list size cs) + size space) + 2
    | Inr (Inr (Inr (dbg, cs, bs))) \<Rightarrow> 4 * size_list size cs + 4)")
    simp_all

section \<open>Vocabulary of the properties\<close>

text \<open>
  The axes orderings the documentation of \<^verbatim>\<open>Conv2DSpace\<close> describes: the four tags
  \<^verbatim>\<open>'b'\<close>, \<^verbatim>\<open>'c'\<close>, \<^verbatim>\<open>0\<close>, \<^verbatim>\<open>1\<close>, each exactly once.
\<close>

definition valid_axes :: "tag list \<Rightarrow> bool" where
  "valid_axes ax = (length ax = 4 \<and> set ax = {tag_b, tag_c, tag_0, tag_1})"

text \<open>The extent that each tag of a valid ordering stands for.\<close>

definition axis_extent :: "int \<Rightarrow> int \<Rightarrow> int \<Rightarrow> int \<Rightarrow> tag \<Rightarrow> int" where
  "axis_extent n h w c t =
     (if t = tag_b then n else if t = tag_0 then h else if t = tag_1 then w else c)"

section \<open>Properties\<close>

subsection \<open>Sequence helpers\<close>

lemma map_err_all_ok:
  "(\<And>x. x \<in> set xs \<Longrightarrow> f x = Inr (g x)) \<Longrightarrow> map_err f xs = Inr (map g xs)"
  by (induction xs) auto

lemma getitem_in_range:
  "- int (length xs) \<le> i \<Longrightarrow> i < int (length xs) \<Longrightarrow> getitem xs i = Inr (py_nth xs i)"
  by (simp add: getitem_def)

lemma first_pos_less: "x \<in> set xs \<Longrightarrow> first_pos xs x < length xs"
  by (induction xs) auto

subsection \<open>Unfolding the conversions\<close>

declare format_as.simps [simp del] VectorSpace_format_as.simps [simp del]
  CompositeSpace_format_as.simps [simp del]

lemma bind_err_simps [simp]:
  "bind_err (Inr x) f = f x"
  "bind_err (Inl e) f = Inl e"
  by (simp_all add: bind_err_def)

subsection \<open>Rows of a batch\<close>

lemma rows_of_0 [simp]: "rows_of 0 len xs = []"
  by (simp add: rows_of_def)

lemma rows_of_Suc: "rows_of (Suc n) len xs = take len xs # rows_of n len (drop len xs)"
proof -
  have "map (\<lambda>i. take len (drop (i * len) xs)) [0..<Suc n]
      = take len (drop (0 * len) xs) # map (\<lambda>i. take len (drop (Suc i * len) xs)) [0..<n]"
    by (simp only: map_upt_Suc)
  moreover have "drop (Suc i * len) xs = drop (i * len) (drop len xs)" for i
    by (simp add: add.commute)
  ultimately show ?thesis by (simp add: rows_of_def)
qed

lemma length_rows_of [simp]: "length (rows_of n len xs) = n"
  by (simp add: rows_of_def)

lemma rows_of_concat:
  "length rs = n \<Longrightarrow> (\<And>r. r \<in> set rs \<Longrightarrow> length r = len) \<Longrightarrow> rows_of n len (concat rs) = rs"
proof (induction rs arbitrary: n)
  case Nil
  then show ?case by simp
next
  case (Cons r rs)
  then obtain m where m: "n = Suc m" "length rs = m" by (cases n) auto
  have "length r = len" using Cons.prems(2) by simp
  moreover have "rows_of m len (concat rs) = rs"
    using Cons.IH [OF m(2)] Cons.prems(2) by simp
  ultimately show ?case by (simp add: m rows_of_Suc)
qed

lemma concat_rows_of:
  "length xs = n * len \<Longrightarrow> concat (rows_of n len xs) = xs"
  by (induction n arbitrary: xs) (simp_all add: rows_of_Suc)

lemma rows_of_length:
  "length xs = n * len \<Longrightarrow> r \<in> set (rows_of n len xs) \<Longrightarrow> length r = len"
proof (induction n arbitrary: xs)
  case 0
  then show ?case by simp
next
  case (Suc n)
  from Suc.prems(2) consider "r = take len xs" | "r \<in> set (rows_of n len (drop len xs))"
    by (auto simp: rows_of_Suc)
  then show ?case
  proof cases
    case 1
    with Suc.prems(1) show ?thesis by simp
  next
    case 2
    moreover have "length (drop len xs) = n * len"
      using Suc.prems(1) by simp
    ultimately show ?thesis using Suc.IH by blast
  qed
qed

lemma slice_columns_matrix:
  "slice_columns (NDArray [n, w] xs) start stop =
     Inr (NDArray [n, clip_pos w stop - clip_pos w start]
       (concat (map (\<lambda>row. take (clip_pos w stop - clip_pos w start) (drop (clip_pos w start) row))
                 (rows_of n w xs))))"
  by (simp add: slice_columns_def Let_def)

lemma concat_split_rows:
  assumes "length rs = n" and "\<And>r. r \<in> set rs \<Longrightarrow> length r = w" and "k \<le> w"
  shows "concatenate_axis1
           [NDArray [n, k] (concat (map (take k) rs)),
            NDArray [n, w - k] (concat (map (\<lambda>row. take (w - k) (drop k row)) rs))]
         = Inr (NDArray [n, w] (concat rs))"
proof -
  have left: "rows_of n k (concat (map (take k) rs)) = map (take k) rs"
    using assms by (intro rows_of_concat) auto
  have right: "rows_of n (w - k) (concat (map (\<lambda>row. take (w - k) (drop k row)) rs))
                 = map (\<lambda>row. take (w - k) (drop k row)) rs"
    using assms by (intro rows_of_concat) auto
  have "map (\<lambda>i. map (take k) rs ! i @ map (\<lambda>row. take (w - k) (drop k row)) rs ! i) [0..<n]
          = map (\<lambda>i. rs ! i) [0..<n]"
    using assms by (intro map_cong) auto
  also have "\<dots> = rs"
    using assms(1) map_nth [of rs] by simp
  finally have rows: "map (\<lambda>i. map (take k) rs ! i @ map (\<lambda>row. take (w - k) (drop k row)) rs ! i)
      [0..<n] = rs" .
  show ?thesis
    using assms(3) by (simp add: concatenate_axis1_def left right rows)
qed

subsection \<open>Row-major addressing\<close>

lemma in_bounds_Nil [simp]: "in_bounds [] idx \<longleftrightarrow> idx = []"
  by (simp add: in_bounds_def)

lemma in_bounds_Cons:
  "in_bounds (s # shp) idx \<longleftrightarrow> (\<exists>i rest. idx = i # rest \<and> i < s \<and> in_bounds shp rest)"
  by (cases idx) (auto simp: in_bounds_def)

lemma in_bounds_length: "in_bounds shp idx \<Longrightarrow> length idx = length shp"
  by (simp add: in_bounds_def list_all2_lengthD)

lemma in_bounds_nth: "in_bounds shp idx \<Longrightarrow> k < length shp \<Longrightarrow> idx ! k < shp ! k"
  by (simp add: in_bounds_def list_all2_conv_all_nth)

lemma in_boundsI:
  "length idx = length shp \<Longrightarrow> (\<And>k. k < length shp \<Longrightarrow> idx ! k < shp ! k) \<Longrightarrow> in_bounds shp idx"
  by (simp add: in_bounds_def list_all2_conv_all_nth)

lemma ravel_less: "in_bounds shp idx \<Longrightarrow> ravel shp idx < prod_list shp"
proof (induction shp arbitrary: idx)
  case Nil
  then show ?case by simp
next
  case (Cons s shp)
  then obtain i rest where idx: "idx = i # rest" "i < s" "in_bounds shp rest"
    by (auto simp: in_bounds_Cons)
  have "ravel shp rest < prod_list shp" using Cons.IH idx(3) .
  then have "i * prod_list shp + ravel shp rest < Suc i * prod_list shp" by simp
  also have "\<dots> \<le> s * prod_list shp"
    using idx(2) by (intro mult_le_mono1) simp
  finally show ?case by (simp add: idx(1))
qed

lemma unravel_ravel: "in_bounds shp idx \<Longrightarrow> unravel shp (ravel shp idx) = idx"
proof (induction shp arbitrary: idx)
  case Nil
  then show ?case by simp
next
  case (Cons s shp)
  then obtain i rest where idx: "idx = i # rest" "i < s" "in_bounds shp rest"
    by (auto simp: in_bounds_Cons)
  have small: "ravel shp rest < prod_list shp" using idx(3) by (rule ravel_less)
  have "(i * prod_list shp + ravel shp rest) div prod_list shp = i"
    using small by simp
  moreover have "(i * prod_list shp + ravel shp rest) mod prod_list shp = ravel shp rest"
    using small by simp
  ultimately show ?case using Cons.IH [OF idx(3)] by (simp add: idx(1))
qed

lemma in_bounds_unravel: "k < prod_list shp \<Longrightarrow> in_bounds shp (unravel shp k)"
proof (induction shp arbitrary: k)
  case Nil
  then show ?case by simp
next
  case (Cons s shp)
  from Cons.prems have pos: "0 < prod_list shp"
    by (cases "prod_list shp = 0") auto
  have "k div prod_list shp < s"
    using Cons.prems pos by (simp add: less_mult_imp_div_less)
  moreover have "in_bounds shp (unravel shp (k mod prod_list shp))"
    using pos by (intro Cons.IH) simp
  ultimately show ?case by (simp add: in_bounds_Cons)
qed

lemma ravel_unravel: "k < prod_list shp \<Longrightarrow> ravel shp (unravel shp k) = k"
proof (induction shp arbitrary: k)
  case Nil
  then show ?case by simp
next
  case (Cons s shp)
  from Cons.prems have pos: "0 < prod_list shp"
    by (cases "prod_list shp = 0") auto
  have "ravel shp (unravel shp (k mod prod_list shp)) = k mod prod_list shp"
    using pos by (intro Cons.IH) simp
  then show ?case by simp
qed

subsection \<open>Arrays by their elements\<close>

lemma ashape_build [simp]: "ashape (build shp f) = shp"
  by (simp add: build_def)

lemma wf_array_build [simp]: "wf_array (build shp f)"
  by (simp add: build_def wf_array_def)

lemma elem_build: "in_bounds shp idx \<Longrightarrow> elem (build shp f) idx = f idx"
  by (simp add: elem_def build_def ravel_less unravel_ravel)

lemma build_elem: "wf_array a \<Longrightarrow> build (ashape a) (elem a) = a"
proof -
  assume wf: "wf_array a"
  have "map (\<lambda>k. adata a ! ravel (ashape a) (unravel (ashape a) k)) [0..<prod_list (ashape a)]
      = map (\<lambda>k. adata a ! k) [0..<prod_list (ashape a)]"
    by (intro map_cong) (simp_all add: ravel_unravel)
  also have "\<dots> = adata a"
    using wf map_nth [of "adata a"] by (simp add: wf_array_def)
  finally show ?thesis
    by (cases a) (simp add: build_def elem_def)
qed

lemma build_cong:
  "(\<And>idx. in_bounds shp idx \<Longrightarrow> f idx = g idx) \<Longrightarrow> build shp f = build shp g"
  by (simp add: build_def in_bounds_unravel)

subsection \<open>Positions and permutations\<close>

lemma nth_first_pos: "x \<in> set xs \<Longrightarrow> xs ! first_pos xs x = x"
  by (induction xs) auto

lemma first_pos_nth: "distinct xs \<Longrightarrow> k < length xs \<Longrightarrow> first_pos xs (xs ! k) = k"
proof (induction xs arbitrary: k)
  case Nil
  then show ?case by simp
next
  case (Cons x xs)
  show ?case
  proof (cases k)
    case 0
    then show ?thesis by simp
  next
    case (Suc j)
    with Cons.prems have "xs ! j \<in> set xs" "x \<notin> set xs" by auto
    then have "x \<noteq> xs ! j" by blast
    with Cons Suc show ?thesis by simp
  qed
qed

lemma is_perm_set: "is_perm p n \<Longrightarrow> set p = {0..<n}"
proof -
  assume p: "is_perm p n"
  then have "set p \<subseteq> {0..<n}" by (auto simp: is_perm_def list_all_iff)
  moreover have "card (set p) = card {0..<n}"
    using p by (simp add: is_perm_def distinct_card)
  ultimately show ?thesis by (simp add: card_subset_eq)
qed

lemma is_perm_nth_first_pos: "is_perm p n \<Longrightarrow> m < n \<Longrightarrow> p ! first_pos p m = m"
  by (simp add: is_perm_set nth_first_pos)

lemma is_perm_first_pos_less: "is_perm p n \<Longrightarrow> m < n \<Longrightarrow> first_pos p m < n"
  using first_pos_less [of m p] by (simp add: is_perm_set) (simp add: is_perm_def)

lemma is_perm_first_pos_nth: "is_perm p n \<Longrightarrow> k < n \<Longrightarrow> first_pos p (p ! k) = k"
  by (simp add: is_perm_def first_pos_nth)

lemma length_inv_perm [simp]: "length (inv_perm p) = length p"
  by (simp add: inv_perm_def)

lemma nth_inv_perm: "m < length p \<Longrightarrow> inv_perm p ! m = first_pos p m"
  by (simp add: inv_perm_def)

lemma inv_perm_unique:
  assumes "is_perm q n" and "length p = n" and "\<And>k. k < n \<Longrightarrow> p ! (q ! k) = k"
  shows "inv_perm q = p"
proof (rule nth_equalityI)
  show "length (inv_perm q) = length p"
    using assms by (simp add: is_perm_def)
next
  fix m assume "m < length (inv_perm q)"
  then have m: "m < n" using assms(1) by (simp add: is_perm_def)
  then have "first_pos q m < n" "q ! first_pos q m = m"
    using assms(1) by (simp_all add: is_perm_first_pos_less is_perm_nth_first_pos)
  then have "p ! m = first_pos q m"
    using assms(3) [of "first_pos q m"] by simp
  then show "inv_perm q ! m = p ! m"
    using m assms(1) by (simp add: nth_inv_perm is_perm_def)
qed

lemma is_perm_inv_perm: "is_perm p n \<Longrightarrow> is_perm (inv_perm p) n"
proof -
  assume p: "is_perm p n"
  then have len: "length p = n" by (simp add: is_perm_def)
  have "inj_on (first_pos p) {0..<n}"
  proof (rule inj_onI)
    fix x y assume x: "x \<in> {0..<n}" and y: "y \<in> {0..<n}"
      and same: "first_pos p x = first_pos p y"
    have "p ! first_pos p x = x" using p x by (intro is_perm_nth_first_pos) simp_all
    moreover have "p ! first_pos p y = y" using p y by (intro is_perm_nth_first_pos) simp_all
    ultimately show "x = y" using same by metis
  qed
  then have "distinct (inv_perm p)"
    by (simp add: inv_perm_def distinct_map len)
  moreover have "list_all (\<lambda>k. k < n) (inv_perm p)"
    using p by (simp add: inv_perm_def list_all_iff len is_perm_first_pos_less)
  ultimately show ?thesis by (simp add: is_perm_def len)
qed

lemma inv_perm_inv_perm: "is_perm p n \<Longrightarrow> inv_perm (inv_perm p) = p"
proof (rule inv_perm_unique)
  assume p: "is_perm p n"
  show "is_perm (inv_perm p) n" using p by (rule is_perm_inv_perm)
  show "length p = n" using p by (simp add: is_perm_def)
  show "p ! (inv_perm p ! k) = k" if "k < n" for k
  proof -
    have "length p = n" using p by (simp add: is_perm_def)
    with that have "inv_perm p ! k = first_pos p k" by (simp add: nth_inv_perm)
    with p that show ?thesis by (simp add: is_perm_nth_first_pos)
  qed
qed

subsection \<open>Gathering along a permutation\<close>

lemma length_take_axes [simp]: "length (take_axes p xs) = length p"
  by (simp add: take_axes_def)

lemma nth_take_axes: "k < length p \<Longrightarrow> take_axes p xs ! k = xs ! (p ! k)"
  by (simp add: take_axes_def)

lemma take_axes_inverse:
  assumes "is_perm p n" and "length xs = n"
  shows "take_axes (inv_perm p) (take_axes p xs) = xs"
proof (rule nth_equalityI)
  show "length (take_axes (inv_perm p) (take_axes p xs)) = length xs"
    using assms by (simp add: is_perm_def)
next
  fix m assume "m < length (take_axes (inv_perm p) (take_axes p xs))"
  then have m: "m < n" using assms by (simp add: is_perm_def)
  have len: "length p = n" using assms by (simp add: is_perm_def)
  show "take_axes (inv_perm p) (take_axes p xs) ! m = xs ! m"
    using m assms(1)
    by (simp add: nth_take_axes nth_inv_perm len is_perm_first_pos_less is_perm_nth_first_pos)
qed

lemma in_bounds_take_axes:
  assumes "in_bounds shp idx" and "list_all (\<lambda>k. k < length shp) p"
  shows "in_bounds (take_axes p shp) (take_axes p idx)"
proof (rule in_boundsI)
  show "length (take_axes p idx) = length (take_axes p shp)" by simp
next
  fix k assume "k < length (take_axes p shp)"
  then have k: "k < length p" by simp
  then have "p ! k < length shp"
    using assms(2) by (simp add: list_all_length)
  then show "take_axes p idx ! k < take_axes p shp ! k"
    using k assms(1) by (simp add: nth_take_axes in_bounds_nth)
qed

lemma is_perm_bounded: "is_perm p n \<Longrightarrow> list_all (\<lambda>k. k < n) p"
  by (simp add: is_perm_def)

subsection \<open>Transposition\<close>

lemma ashape_transpose_array [simp]: "ashape (transpose_array a p) = take_axes p (ashape a)"
  by (simp add: transpose_array_def)

lemma wf_transpose_array [simp]: "wf_array (transpose_array a p)"
  by (simp add: transpose_array_def)

lemma elem_transpose_array:
  "in_bounds (take_axes p (ashape a)) j \<Longrightarrow>
     elem (transpose_array a p) j = elem a (take_axes (inv_perm p) j)"
  by (simp add: transpose_array_def elem_build)

lemma transpose_array_inverse:
  assumes p: "is_perm p (ndim a)" and wf: "wf_array a"
  shows "transpose_array (transpose_array a p) (inv_perm p) = a"
proof -
  let ?n = "ndim a"
  let ?q = "inv_perm p"
  have q: "is_perm ?q ?n" using p by (rule is_perm_inv_perm)
  have qq: "inv_perm ?q = p" using p by (rule inv_perm_inv_perm)
  have shape: "take_axes ?q (take_axes p (ashape a)) = ashape a"
    using p by (intro take_axes_inverse) (simp_all add: ndim_def)
  have "elem (transpose_array a p) (take_axes p j) = elem a j"
    if j: "in_bounds (ashape a) j" for j
  proof -
    have "in_bounds (take_axes p (ashape a)) (take_axes p j)"
      using j is_perm_bounded [OF p] by (intro in_bounds_take_axes) (simp_all add: ndim_def)
    then have "elem (transpose_array a p) (take_axes p j)
                 = elem a (take_axes ?q (take_axes p j))"
      by (rule elem_transpose_array)
    also have "take_axes ?q (take_axes p j) = j"
      using p j by (intro take_axes_inverse) (simp_all add: ndim_def in_bounds_length)
    finally show ?thesis .
  qed
  then have "build (ashape a) (\<lambda>j. elem (transpose_array a p) (take_axes p j))
               = build (ashape a) (elem a)"
    by (intro build_cong)
  then show ?thesis
    using wf by (simp add: transpose_array_def [of "transpose_array a p"] shape qq build_elem)
qed

subsection \<open>Conv2DSpace to Conv2DSpace (C1)\<close>

lemma valid_axes_distinct: "valid_axes ax \<Longrightarrow> distinct ax"
proof -
  assume "valid_axes ax"
  then have "card (set ax) = length ax" by (simp add: valid_axes_def)
  then show ?thesis by (rule card_distinct)
qed

lemma valid_axes_index:
  assumes "valid_axes src" and "valid_axes dst"
  shows "map_err (index src) dst = Inr (map (first_pos src) dst)"
  using assms by (intro map_err_all_ok) (simp add: index_def valid_axes_def)

lemma valid_axes_shuffle_perm:
  assumes "valid_axes src" and "valid_axes dst"
  shows "is_perm (map (first_pos src) dst) 4"
proof -
  have sets: "set dst = set src" using assms by (simp add: valid_axes_def)
  have "inj_on (first_pos src) (set dst)"
  proof (rule inj_onI)
    fix x y assume x: "x \<in> set dst" and y: "y \<in> set dst"
      and same: "first_pos src x = first_pos src y"
    have "src ! first_pos src x = x" using x sets by (intro nth_first_pos) simp
    moreover have "src ! first_pos src y = y" using y sets by (intro nth_first_pos) simp
    ultimately show "x = y" using same by metis
  qed
  then have "distinct (map (first_pos src) dst)"
    using valid_axes_distinct [OF assms(2)] by (simp add: distinct_map)
  moreover have "first_pos src x < 4" if "x \<in> set dst" for x
    using that sets first_pos_less [of x src] assms(1) by (simp add: valid_axes_def)
  then have "list_all (\<lambda>k. k < 4) (map (first_pos src) dst)"
    by (simp add: list_all_iff)
  moreover have "length (map (first_pos src) dst) = 4"
    using assms(2) by (simp add: valid_axes_def)
  ultimately show ?thesis by (simp add: is_perm_def)
qed

lemma valid_axes_shuffle_inverse:
  assumes "valid_axes src" and "valid_axes dst"
  shows "inv_perm (map (first_pos src) dst) = map (first_pos dst) src"
proof (rule inv_perm_unique)
  show "is_perm (map (first_pos src) dst) 4"
    using assms by (rule valid_axes_shuffle_perm)
  show "length (map (first_pos dst) src) = 4"
    using assms(1) by (simp add: valid_axes_def)
  fix k :: nat assume k: "k < 4"
  have len: "length src = 4" "length dst = 4" and sets: "set dst = set src"
    using assms by (simp_all add: valid_axes_def)
  have "dst ! k \<in> set src" using k len sets by (metis nth_mem)
  then have pos: "first_pos src (dst ! k) < 4" "src ! first_pos src (dst ! k) = dst ! k"
    using len first_pos_less [of "dst ! k" src] by (simp_all add: nth_first_pos)
  have "map (first_pos dst) src ! (map (first_pos src) dst ! k)
          = first_pos dst (src ! first_pos src (dst ! k))"
    using k len pos(1) by simp
  also have "\<dots> = first_pos dst (dst ! k)" by (simp add: pos(2))
  also have "\<dots> = k"
    using k len valid_axes_distinct [OF assms(2)] by (simp add: first_pos_nth)
  finally show "map (first_pos dst) src ! (map (first_pos src) dst ! k) = k" .
qed

lemma convert_numpy_valid:
  assumes "valid_axes src" and "valid_axes dst" and "src \<noteq> dst" and "ndim X = 4"
  shows "convert_numpy X src dst = Inr (transpose_array X (map (first_pos src) dst))"
  using assms valid_axes_index [OF assms(1,2)] valid_axes_shuffle_perm [OF assms(1,2)]
  by (simp add: convert_numpy_def np_transpose_def valid_axes_def)

text \<open>
  Claim C1. For two \<^verbatim>\<open>Conv2DSpace\<close> descriptors that differ only in their (valid)
  axes orderings and every 4-dimensional array \<open>X\<close>, \<^verbatim>\<open>np_format_as\<close> from the
  source to the destination is the one transpose of \<open>X\<close> by the vector
  \<^verbatim>\<open>[src_axes.index(a) for a in dst_axes]\<close>, a permutation of the four axes: the
  shape is permuted, and the element of \<open>X\<close> at each multi-index is the element of the
  result at the permuted multi-index, unchanged. Converting the result back to the
  source ordering gives \<open>X\<close> again; with \<^verbatim>\<open>('b', 0, 1, 'c')\<close> and
  \<^verbatim>\<open>('b', 'c', 0, 1)\<close> this is the round trip of the claim.
\<close>

theorem Conv2DSpace_axes_permutation_round_trip:
  assumes src: "valid_axes src_axes" and dst: "valid_axes dst_axes"
    and differ: "src_axes \<noteq> dst_axes"
    and wf: "wf_array X" and nd: "ndim X = 4"
  shows "\<exists>shuffle Y.
      map_err (index src_axes) dst_axes = Inr shuffle
    \<and> is_perm shuffle 4
    \<and> Conv2DSpace_np_format_as shp c src_axes X (Conv2DSpace shp c dst_axes) = Inr Y
    \<and> np_transpose X shuffle = Inr Y
    \<and> ashape Y = take_axes shuffle (ashape X)
    \<and> (\<forall>i. in_bounds (ashape X) i \<longrightarrow> elem Y (take_axes shuffle i) = elem X i)
    \<and> Conv2DSpace_np_format_as shp c dst_axes Y (Conv2DSpace shp c src_axes) = Inr X"
proof -
  define shuffle where "shuffle = map (first_pos src_axes) dst_axes"
  define Y where "Y = transpose_array X shuffle"
  have vector: "map_err (index src_axes) dst_axes = Inr shuffle"
    unfolding shuffle_def using src dst by (rule valid_axes_index)
  have perm: "is_perm shuffle 4"
    unfolding shuffle_def using src dst by (rule valid_axes_shuffle_perm)
  have inverse: "inv_perm shuffle = map (first_pos dst_axes) src_axes"
    unfolding shuffle_def using src dst by (rule valid_axes_shuffle_inverse)
  have forward: "Conv2DSpace_np_format_as shp c src_axes X (Conv2DSpace shp c dst_axes) = Inr Y"
    using convert_numpy_valid [OF src dst differ nd]
    by (simp add: Conv2DSpace_np_format_as_def Y_def shuffle_def)
  have once: "np_transpose X shuffle = Inr Y"
    using perm nd by (simp add: np_transpose_def Y_def)
  have shape: "ashape Y = take_axes shuffle (ashape X)"
    by (simp add: Y_def)
  have unchanged: "elem Y (take_axes shuffle i) = elem X i" if i: "in_bounds (ashape X) i" for i
  proof -
    have "in_bounds (take_axes shuffle (ashape X)) (take_axes shuffle i)"
      using i is_perm_bounded [OF perm] nd by (intro in_bounds_take_axes) (simp_all add: ndim_def)
    then have "elem Y (take_axes shuffle i) = elem X (take_axes (inv_perm shuffle) (take_axes shuffle i))"
      unfolding Y_def by (rule elem_transpose_array)
    also have "take_axes (inv_perm shuffle) (take_axes shuffle i) = i"
      using perm i nd by (intro take_axes_inverse) (simp_all add: ndim_def in_bounds_length)
    finally show ?thesis .
  qed
  have "ndim Y = 4"
    using perm by (simp add: ndim_def Y_def is_perm_def)
  with convert_numpy_valid [OF dst src] differ
  have "Conv2DSpace_np_format_as shp c dst_axes Y (Conv2DSpace shp c src_axes)
          = Inr (transpose_array Y (inv_perm shuffle))"
    by (simp add: Conv2DSpace_np_format_as_def inverse)
  also have "transpose_array Y (inv_perm shuffle) = X"
    unfolding Y_def using perm wf nd by (intro transpose_array_inverse) simp_all
  finally have backward:
    "Conv2DSpace_np_format_as shp c dst_axes Y (Conv2DSpace shp c src_axes) = Inr X" .
  from vector perm forward once shape unchanged backward show ?thesis by blast
qed

text \<open>
  The theorem at \<^verbatim>\<open>('b', 0, 1, 'c')\<close> and \<^verbatim>\<open>('b', 'c', 0, 1)\<close>, on one image of
  two rows, three columns and two channels.
\<close>

theorem Conv2DSpace_axes_permutation_round_trip_witness:
  "Conv2DSpace_np_format_as (2, 3) 2 [tag_b, tag_0, tag_1, tag_c]
       (NDArray [1, 2, 3, 2] [0, 1, 2, 3, 4, 5, 6, 7, 8, 9, 10, 11 :: int])
       (Conv2DSpace (2, 3) 2 [tag_b, tag_c, tag_0, tag_1])
     = Inr (NDArray [1, 2, 2, 3] [0, 2, 4, 6, 8, 10, 1, 3, 5, 7, 9, 11])
   \<and> Conv2DSpace_np_format_as (2, 3) 2 [tag_b, tag_c, tag_0, tag_1]
       (NDArray [1, 2, 2, 3] [0, 2, 4, 6, 8, 10, 1, 3, 5, 7, 9, 11 :: int])
       (Conv2DSpace (2, 3) 2 [tag_b, tag_0, tag_1, tag_c])
     = Inr (NDArray [1, 2, 3, 2] [0, 1, 2, 3, 4, 5, 6, 7, 8, 9, 10, 11])"
proof -
  let ?X = "NDArray [1, 2, 3, 2] [0, 1, 2, 3, 4, 5, 6, 7, 8, 9, 10, 11 :: int]"
  let ?src = "[tag_b, tag_0, tag_1, tag_c]"
  let ?dst = "[tag_b, tag_c, tag_0, tag_1]"
  have forward: "Conv2DSpace_np_format_as (2, 3) 2 ?src ?X (Conv2DSpace (2, 3) 2 ?dst)
      = Inr (NDArray [1, 2, 2, 3] [0, 2, 4, 6, 8, 10, 1, 3, 5, 7, 9, 11])"
    by code_simp
  have "valid_axes ?src" "valid_axes ?dst" "?src \<noteq> ?dst" "wf_array ?X" "ndim ?X = 4"
    by (auto simp: valid_axes_def wf_array_def ndim_def)
  from Conv2DSpace_axes_permutation_round_trip [OF this, of "(2, 3)" 2] forward
  show ?thesis by auto
qed

text \<open>
  The symbolic path, \<^verbatim>\<open>format_as\<close> through \<^verbatim>\<open>Conv2DSpace.convert\<close>, shuffles by the same
  vector.
\<close>

lemma format_as_Conv2DSpace_axes:
  assumes "validate dbg (Conv2DSpace shp c src) (TensorVar X) = Inr ()"
    and "valid_axes src" and "valid_axes dst" and "src \<noteq> dst"
  shows "format_as dbg (Conv2DSpace shp c src) (TensorVar X) (Conv2DSpace shp c dst)
           = Inr (TensorVar (transpose_array X (map (first_pos src) dst)))"
proof -
  from assms(1) have nd: "ndim X = 4" by (simp split: if_splits)
  have "convert (TensorVar X) src dst
          = Inr (TensorVar (transpose_array X (map (first_pos src) dst)))"
    using assms(2-4) nd valid_axes_index [OF assms(2,3)] valid_axes_shuffle_perm [OF assms(2,3)]
    by (simp add: convert_def dimshuffle_def np_transpose_def valid_axes_def)
  then show ?thesis
    using assms(1,4) by (simp add: format_as.simps Conv2DSpace_format_as_def)
qed

subsection \<open>VectorSpace to CompositeSpace and back (C2)\<close>

lemma validate_VectorSpace_dense:
  "validate dbg (VectorSpace d False) X = Inr () \<longleftrightarrow> (\<exists>x. X = TensorVar x \<and> ndim x = 2)"
  by (cases X) auto

lemma format_as_VectorSpace_same:
  "ndim x = 2 \<Longrightarrow>
     format_as dbg (VectorSpace k False) (TensorVar x) (VectorSpace k False) = Inr (TensorVar x)"
  by (simp add: format_as.simps)

lemma ndim_slice_columns:
  "ndim x = 2 \<Longrightarrow> \<exists>s. slice_columns x start stop = Inr s \<and> ndim s = 2"
  by (cases x) (auto simp: ndim_def slice_columns_def Let_def split: list.splits)

text \<open>
  Claim C2, as amended. \<^verbatim>\<open>VectorSpace.validate\<close> accepts every 2-dimensional tensor
  variable, whatever its number of columns. For every such batch \<open>X\<close> with at most \<open>d\<close>
  columns (every batch of shape \<open>(n, d)\<close> in particular) and every \<open>0 < a < d\<close>,
  converting \<open>X\<close> from \<^verbatim>\<open>VectorSpace(d)\<close> to
  \<^verbatim>\<open>CompositeSpace([VectorSpace(a), VectorSpace(d-a)])\<close> yields the column slices
  \<^verbatim>\<open>X[:, 0:a]\<close> and \<^verbatim>\<open>X[:, a:d]\<close>, in that order, and converting that tuple back
  to \<^verbatim>\<open>VectorSpace(d)\<close> yields \<open>X\<close> itself.
\<close>

theorem VectorSpace_CompositeSpace_round_trip:
  assumes valid: "validate dbg (VectorSpace d False) (TensorVar x) = Inr ()"
    and wf: "wf_array x"
    and cols: "int (ashape x ! 1) \<le> d"
    and split: "0 < a" "a < d"
  shows "\<exists>s1 s2. slice_columns x 0 a = Inr s1 \<and> slice_columns x a d = Inr s2
           \<and> format_as dbg (VectorSpace d False) (TensorVar x)
                (CompositeSpace [VectorSpace a False, VectorSpace (d - a) False])
               = Inr (TupleB [TensorVar s1, TensorVar s2])
           \<and> format_as dbg (CompositeSpace [VectorSpace a False, VectorSpace (d - a) False])
                (TupleB [TensorVar s1, TensorVar s2]) (VectorSpace d False)
               = Inr (TensorVar x)"
proof -
  from valid have "ndim x = 2" by (simp split: if_splits)
  then obtain n w xs where x: "x = NDArray [n, w] xs"
    by (cases x) (auto simp: ndim_def length_Suc_conv numeral_2_eq_2)
  from wf x have len: "length xs = n * w" by (simp add: wf_array_def)
  from cols x have w: "int w \<le> d" by simp
  define k where "k = min w (nat a)"
  define rs where "rs = rows_of n w xs"
  define s1 where "s1 = NDArray [n, k] (concat (map (take k) rs))"
  define s2 where "s2 = NDArray [n, w - k] (concat (map (\<lambda>row. take (w - k) (drop k row)) rs))"
  have clip: "clip_pos w 0 = 0" "clip_pos w a = k" "clip_pos w d = w"
    using split w by (auto simp: clip_pos_def k_def)
  have first: "slice_columns x 0 a = Inr s1"
    by (simp add: x slice_columns_matrix clip s1_def rs_def)
  have second: "slice_columns x a d = Inr s2"
    by (simp add: x slice_columns_matrix clip s2_def rs_def)
  have nd: "ndim s1 = 2" "ndim s2 = 2"
    by (simp_all add: s1_def s2_def ndim_def)
  have same1: "format_as dbg (VectorSpace a False) (TensorVar s1) (VectorSpace a False)
                 = Inr (TensorVar s1)"
    and same2: "format_as dbg (VectorSpace (d - a) False) (TensorVar s2) (VectorSpace (d - a) False)
                 = Inr (TensorVar s2)"
    using nd by (simp_all add: format_as_VectorSpace_same)
  have forward: "format_as dbg (VectorSpace d False) (TensorVar x)
                (CompositeSpace [VectorSpace a False, VectorSpace (d - a) False])
               = Inr (TupleB [TensorVar s1, TensorVar s2])"
    using \<open>ndim x = 2\<close> first second same1 same2
    by (simp add: format_as.simps [of _ "VectorSpace d False"] VectorSpace_format_as.simps
        subtensor_def)
  have rows: "length rs = n" "\<And>r. r \<in> set rs \<Longrightarrow> length r = w"
    using len by (auto simp: rs_def dest: rows_of_length)
  have "k \<le> w" by (simp add: k_def)
  from concat_split_rows [OF rows this]
  have "concatenate_axis1 [s1, s2] = Inr (NDArray [n, w] (concat rs))"
    by (simp add: s1_def s2_def)
  also have "concat rs = xs"
    using len by (simp add: rs_def concat_rows_of)
  finally have joined: "concatenate_axis1 [s1, s2] = Inr x"
    by (simp add: x)
  have backward: "format_as dbg (CompositeSpace [VectorSpace a False, VectorSpace (d - a) False])
                (TupleB [TensorVar s1, TensorVar s2]) (VectorSpace d False)
               = Inr (TensorVar x)"
    using nd same1 same2 joined
    by (simp add: format_as.simps [of _ "CompositeSpace _"] CompositeSpace_format_as.simps
        concatenate_def tensor_value_def)
  from first second forward backward show ?thesis by blast
qed

text \<open>The array operations, for evaluation at concrete arrays.\<close>

lemmas eval_arrays = slice_columns_def rows_of_def clip_pos_def concatenate_axis1_def
  concatenate_def tensor_value_def subtensor_def ndim_def wf_array_def Let_def

text \<open>The theorem at a batch of two examples of three features, split after the first.\<close>

theorem VectorSpace_CompositeSpace_round_trip_witness:
  "format_as False (VectorSpace 3 False) (TensorVar (NDArray [2, 3] [1, 2, 3, 4, 5, 6 :: int]))
       (CompositeSpace [VectorSpace 1 False, VectorSpace 2 False])
     = Inr (TupleB [TensorVar (NDArray [2, 1] [1, 4]), TensorVar (NDArray [2, 2] [2, 3, 5, 6])])
   \<and> format_as False (CompositeSpace [VectorSpace 1 False, VectorSpace 2 False])
       (TupleB [TensorVar (NDArray [2, 1] [1, 4]), TensorVar (NDArray [2, 2] [2, 3, 5, 6 :: int])])
       (VectorSpace 3 False)
     = Inr (TensorVar (NDArray [2, 3] [1, 2, 3, 4, 5, 6]))"
  using VectorSpace_CompositeSpace_round_trip
    [of False 3 "NDArray [2, 3] [1, 2, 3, 4, 5, 6 :: int]" 1]
  by (simp add: eval_arrays numeral_2_eq_2)

text \<open>
  The claim as stated covers every batch that validates. A batch of shape \<open>(1, 3)\<close>
  validates under \<^verbatim>\<open>VectorSpace(2)\<close>, and the round trip through
  \<^verbatim>\<open>CompositeSpace([VectorSpace(1), VectorSpace(1)])\<close> returns its first two columns
  only.
\<close>

theorem VectorSpace_wide_batch_counterexample:
  "validate False (VectorSpace 2 False) (TensorVar (NDArray [1, 3] [1, 2, 3 :: int])) = Inr ()
   \<and> format_as False (VectorSpace 2 False) (TensorVar (NDArray [1, 3] [1, 2, 3 :: int]))
       (CompositeSpace [VectorSpace 1 False, VectorSpace 1 False])
     = Inr (TupleB [TensorVar (NDArray [1, 1] [1]), TensorVar (NDArray [1, 1] [2])])
   \<and> format_as False (CompositeSpace [VectorSpace 1 False, VectorSpace 1 False])
       (TupleB [TensorVar (NDArray [1, 1] [1]), TensorVar (NDArray [1, 1] [2 :: int])])
       (VectorSpace 2 False)
     = Inr (TensorVar (NDArray [1, 2] [1, 2]))
   \<and> TensorVar (NDArray [1, 2] [1, 2]) \<noteq> TensorVar (NDArray [1, 3] [1, 2, 3 :: int])"
  by (simp add: format_as.simps VectorSpace_format_as.simps CompositeSpace_format_as.simps
      eval_arrays)

subsection \<open>Equality of descriptors (C3)\<close>

text \<open>
  Descriptors that compare equal hash alike: each \<^verbatim>\<open>__hash__\<close> hashes no more than
  its \<^verbatim>\<open>__eq__\<close> compares.
\<close>

lemma space_eq_same_hash: "space_eq s t \<Longrightarrow> space_hash s = space_hash t"
proof (induction s arbitrary: t)
  case (VectorSpace d sp)
  then show ?case by (cases t) simp_all
next
  case (Conv2DSpace shp c ax)
  then show ?case by (cases t) simp_all
next
  case (CompositeSpace cs)
  from CompositeSpace.prems obtain ds where t: "t = CompositeSpace ds"
    and all: "list_all2 space_eq cs ds"
    by (cases t) simp_all
  have "map space_hash cs = map space_hash ds"
    using all CompositeSpace.IH
    by (induction cs ds rule: list_all2_induct) simp_all
  then show ?case by (simp add: t)
next
  case NullSpace
  then show ?case by (cases t) simp_all
qed

text \<open>
  Claim C3 asks for structural equality over all attributes, under which
  \<^verbatim>\<open>VectorSpace(d, sparse=True)\<close> and \<^verbatim>\<open>VectorSpace(d, sparse=False)\<close> differ.
  \<^verbatim>\<open>VectorSpace.__eq__\<close> and \<^verbatim>\<open>__hash__\<close> leave \<open>sparse\<close> out: the two
  descriptors compare equal and hash alike for every \<open>d\<close>, although their attributes
  differ. They are not interchangeable: a dense batch is valid under the dense space only,
  and yet \<^verbatim>\<open>format_as\<close> from the dense to the sparse space takes the two for the
  same space and returns the dense batch as it is.
\<close>

theorem VectorSpace_eq_ignores_sparse:
  "space_eq (VectorSpace d True) (VectorSpace d False)
   \<and> space_eq (VectorSpace d False) (VectorSpace d True)
   \<and> space_hash (VectorSpace d True) = space_hash (VectorSpace d False)
   \<and> VectorSpace d True \<noteq> VectorSpace d False
   \<and> validate dbg (VectorSpace 3 False) (TensorVar (NDArray [1, 3] [1, 2, 3 :: int])) = Inr ()
   \<and> validate dbg (VectorSpace 3 True) (TensorVar (NDArray [1, 3] [1, 2, 3 :: int])) = Inl TypeError
   \<and> format_as dbg (VectorSpace 3 False) (TensorVar (NDArray [1, 3] [1, 2, 3 :: int]))
         (VectorSpace 3 True) = Inr (TensorVar (NDArray [1, 3] [1, 2, 3]))"
  by (simp add: format_as.simps ndim_def)

subsection \<open>Construction of a VectorSpace (C4)\<close>

text \<open>
  Claim C4, as amended. \<^verbatim>\<open>VectorSpace.__init__\<close> validates nothing: for every
  integer \<open>dim\<close>, positive or not, construction succeeds and the descriptor holds the
  given \<open>dim\<close> and \<open>sparse\<close> unchanged; the given \<open>dim\<close> is its total dimension.
\<close>

theorem VectorSpace_init_accepts_any_dim:
  "\<exists>s. VectorSpace_init d sp = Inr s \<and> dim s = d \<and> sparse s = sp
       \<and> get_total_dimension s = Inr d"
  by (simp add: VectorSpace_init_def)

text \<open>
  The claim as stated asks for a failure at \<open>dim = 0\<close> and \<open>dim = -1\<close>; both
  constructions return a descriptor.
\<close>

theorem VectorSpace_init_nonpositive_counterexample:
  "(\<nexists>e. VectorSpace_init 0 False = Inl e) \<and> VectorSpace_init 0 False = Inr (VectorSpace 0 False)
   \<and> (\<nexists>e. VectorSpace_init (- 1) False = Inl e)
   \<and> VectorSpace_init (- 1) False = Inr (VectorSpace (- 1) False)"
  by (simp add: VectorSpace_init_def)

subsection \<open>Axes of a constructed Conv2DSpace (C5)\<close>




subsection \<open>Total dimensions that differ (C6)\<close>

text \<open>
  Claim C6. For every source descriptor, destination descriptor and batch valid under the
  source: if both total dimensions are defined and differ, \<^verbatim>\<open>format_as\<close> raises the
  \<^verbatim>\<open>ValueError\<close> whose message names the source's total and then the destination's,
  and returns no converted batch.
\<close>

theorem format_as_dimension_mismatch:
  assumes "validate dbg src batch = Inr ()"
    and "get_total_dimension src = Inr m"
    and "get_total_dimension dst = Inr n"
    and "m \<noteq> n"
  shows "format_as dbg src batch dst = Inl (ValueError (dimension_message src m dst n))
       \<and> (\<exists>pre mid. dimension_message src m dst n = pre @ str_int m @ mid @ str_int n)
       \<and> (\<nexists>converted. format_as dbg src batch dst = Inr converted)"
proof -
  have raised: "format_as dbg src batch dst = Inl (ValueError (dimension_message src m dst n))"
    using assms by (simp add: format_as.simps)
  have named: "dimension_message src m dst n =
      (str_space src @ '' with total dimension '') @ str_int m @
      ('' can't format a batch into '' @ str_space dst @ ''because its total dimension is '') @
      str_int n"
    by (simp add: dimension_message_def)
  from raised named show ?thesis by (metis sum.distinct(1))
qed

text \<open>The example of the claim: \<^verbatim>\<open>VectorSpace(dim=3)\<close> into \<^verbatim>\<open>VectorSpace(dim=4)\<close>.\<close>

theorem format_as_dimension_mismatch_witness:
  "format_as False (VectorSpace 3 False) (TensorVar (NDArray [1, 3] [1, 2, 3 :: int]))
       (VectorSpace 4 False)
     = Inl (ValueError
        ''VectorSpace(dim=3) with total dimension 3 can't format a batch into VectorSpace(dim=4)because its total dimension is 4'')"
  using format_as_dimension_mismatch
    [of False "VectorSpace 3 False" "TensorVar (NDArray [1, 3] [1, 2, 3 :: int])" 3
        "VectorSpace 4 False" 4]
  by (simp add: ndim_def dimension_message_def str_int_def digit_char_def)

subsection \<open>NullSpace through format\_as (C7)\<close>

text \<open>
  Claim C7 asks that \<^verbatim>\<open>NullSpace\<close> to \<^verbatim>\<open>NullSpace\<close> return the placeholder through
  \<^verbatim>\<open>format_as\<close>. \<^verbatim>\<open>Space.format_as\<close> asks the source for its total dimension before
  it dispatches, and \<^verbatim>\<open>NullSpace\<close> does not implement \<^verbatim>\<open>get_total_dimension\<close>: the
  call raises \<^verbatim>\<open>NotImplementedError\<close> on the placeholder (any other batch is refused
  by \<^verbatim>\<open>validate\<close> before), no batch and destination give a result, and
  \<^verbatim>\<open>NullSpace._format_as\<close>, which would return the placeholder, is never reached.
\<close>

theorem NullSpace_format_as_not_reached:
  "format_as dbg NullSpace NoneB NullSpace = Inl NotImplementedError
   \<and> format_as dbg NullSpace OtherB NullSpace = Inl TypeError
   \<and> (\<nexists>r. format_as dbg NullSpace batch space = Inr r)
   \<and> NullSpace_format_as dbg NoneB NullSpace = Inr NoneB"
  by (auto simp: format_as.simps NullSpace_format_as_def split: sum.splits)

subsection \<open>Origin batch of a Conv2DSpace (C8)\<close>

lemma origin_dims_lookup:
  assumes "t \<in> {tag_b, tag_c, tag_0, tag_1}"
  shows "dict_get (map_of [(tag_b, n), (tag_0, h), (tag_1, w), (tag_c, c)]) t
           = Inr (axis_extent n h w c t)"
  using assms by (auto simp: dict_get_def axis_extent_def)

text \<open>
  Claim C8. For every \<^verbatim>\<open>Conv2DSpace(shape=(h,w), num_channels=c, axes=ax)\<close> with
  positive sizes and a valid \<open>ax\<close>, and every positive integer \<open>n\<close>,
  \<^verbatim>\<open>get_origin_batch(n)\<close> returns a 4-dimensional array of zeros whose shape, position
  by position, is the lookup of the tags of \<open>ax\<close> in \<^verbatim>\<open>{'b': n, 0: h, 1: w, 'c': c}\<close>;
  an \<open>n\<close> that is not an integer raises \<^verbatim>\<open>TypeError\<close>.
\<close>

theorem Conv2DSpace_get_origin_batch_zero:
  assumes "valid_axes ax" and "0 < h" and "0 < w" and "0 < c" and "0 < n"
  shows "(\<exists>z. (get_origin_batch (Conv2DSpace (h, w) c ax) (PyInt n) :: error + ('a::zero) npvalue)
                = Inr (Array z)
            \<and> ndim z = 4 \<and> wf_array z
            \<and> map (\<lambda>extent. Some (int extent)) (ashape z)
                = map (map_of [(tag_b, n), (tag_0, h), (tag_1, w), (tag_c, c)]) ax
            \<and> adata z = replicate (prod_list (ashape z)) 0)
       \<and> (\<forall>v. \<not> is_py_integer v \<longrightarrow>
            (get_origin_batch (Conv2DSpace (h, w) c ax) v :: error + 'a npvalue) = Inl TypeError)"
proof -
  let ?dims = "map_of [(tag_b, n), (tag_0, h), (tag_1, w), (tag_c, c)]"
  let ?zshape = "map (axis_extent n h w c) ax"
  have looked_up: "map_err (dict_get ?dims) ax = Inr ?zshape"
    using assms(1) by (intro map_err_all_ok origin_dims_lookup) (simp add: valid_axes_def)
  have "0 \<le> axis_extent n h w c t" for t
    using assms by (simp add: axis_extent_def)
  then have nonneg: "list_all (\<lambda>d. 0 \<le> d) ?zshape"
    by (simp add: list_all_iff)
  have ints: "map int (map nat ?zshape) = ?zshape"
    using nonneg by (simp add: list_all_iff comp_def)
  have "(get_origin_batch (Conv2DSpace (h, w) c ax) (PyInt n) :: error + 'a npvalue)
          = Inr (Array (NDArray (map nat ?zshape) (replicate (prod_list (map nat ?zshape)) 0)))"
    using assms(5) looked_up nonneg by (simp add: np_zeros_def)
  moreover have "length (map nat ?zshape) = 4"
    using assms(1) by (simp add: valid_axes_def)
  moreover have "map (\<lambda>extent. Some (int extent)) (map nat ?zshape) = map ?dims ax"
  proof -
    have "map (\<lambda>extent. Some (int extent)) (map nat ?zshape) = map Some ?zshape"
      using ints by (simp add: comp_def)
    also have "\<dots> = map ?dims ax"
      using assms(1) by (auto simp: valid_axes_def axis_extent_def)
    finally show ?thesis .
  qed
  ultimately have first: "\<exists>z. (get_origin_batch (Conv2DSpace (h, w) c ax) (PyInt n) :: error + 'a npvalue)
                = Inr (Array z)
            \<and> ndim z = 4 \<and> wf_array z
            \<and> map (\<lambda>extent. Some (int extent)) (ashape z) = map ?dims ax
            \<and> adata z = replicate (prod_list (ashape z)) 0"
    by (simp add: ndim_def wf_array_def)
  have second: "\<forall>v. \<not> is_py_integer v \<longrightarrow>
            (get_origin_batch (Conv2DSpace (h, w) c ax) v :: error + 'a npvalue) = Inl TypeError"
    by (auto simp: is_py_integer_def split: pyval.splits)
  from first second show ?thesis by blast
qed

text \<open>The theorem at a channel-leading ordering, and at a non-integer \<open>n\<close>.\<close>

theorem Conv2DSpace_get_origin_batch_zero_witness:
  "(get_origin_batch (Conv2DSpace (2, 3) 1 [tag_c, tag_0, tag_1, tag_b]) (PyInt 5)
       :: error + int npvalue) = Inr (Array (NDArray [1, 2, 3, 5] (replicate 30 0)))
   \<and> (get_origin_batch (Conv2DSpace (2, 3) 1 [tag_c, tag_0, tag_1, tag_b]) PyOther
       :: error + int npvalue) = Inl TypeError"
  using Conv2DSpace_get_origin_batch_zero [of "[tag_c, tag_0, tag_1, tag_b]" 2 3 1 5, where ?'a = int]
  by (simp add: valid_axes_def dict_get_def np_zeros_def)

subsection \<open>Restriction (C9)\<close>

text \<open>
  Claim C9. For a \<^verbatim>\<open>CompositeSpace\<close> and a non-empty list of valid indices,
  \<^verbatim>\<open>restrict\<close> returns the selected components in the order of the list: the
  component itself when the list has exactly one index, a \<^verbatim>\<open>CompositeSpace\<close> of the
  selected components otherwise. So \<^verbatim>\<open>restrict(CompositeSpace([A,B,C]), [2])\<close> is
  \<open>C\<close> and \<^verbatim>\<open>restrict(CompositeSpace([A,B,C]), [2,0])\<close> is
  \<^verbatim>\<open>CompositeSpace([C,A])\<close>.
\<close>

theorem restrict_selects_in_order:
  assumes "subs \<noteq> []"
    and "\<forall>i \<in> set subs. - int (length cs) \<le> i \<and> i < int (length cs)"
  shows "restrict (CompositeSpace cs) subs =
           Inr (if length subs = 1 then py_nth cs (hd subs)
                else CompositeSpace (map (py_nth cs) subs))
       \<and> restrict (CompositeSpace [A, B, C]) [2] = Inr C
       \<and> restrict (CompositeSpace [A, B, C]) [2, 0] = Inr (CompositeSpace [C, A])"
proof -
  have sel: "map_err (getitem cs) subs = Inr (map (py_nth cs) subs)"
    using assms(2) by (intro map_err_all_ok getitem_in_range) auto
  have general: "restrict (CompositeSpace cs) subs =
           Inr (if length subs = 1 then py_nth cs (hd subs)
                else CompositeSpace (map (py_nth cs) subs))"
  proof (cases subs)
    case Nil
    with assms(1) show ?thesis by simp
  next
    case (Cons i rest)
    show ?thesis
    proof (cases rest)
      case Nil
      with Cons assms(2) show ?thesis
        by (simp add: restrict_def getitem_in_range)
    next
      case (Cons j rest')
      with \<open>subs = i # rest\<close> sel show ?thesis
        by (simp add: restrict_def)
    qed
  qed
  have one: "restrict (CompositeSpace [A, B, C]) [2] = Inr C"
    by (simp add: restrict_def getitem_def py_nth_def)
  have two: "restrict (CompositeSpace [A, B, C]) [2, 0] = Inr (CompositeSpace [C, A])"
    by (simp add: restrict_def getitem_def py_nth_def)
  from general one two show ?thesis by blast
qed

text \<open>The theorem at a three-component space, with a negative index among the three.\<close>

theorem restrict_selects_in_order_witness:
  "restrict (CompositeSpace [VectorSpace 2 False, NullSpace, VectorSpace 5 False]) [-1, 1, 0]
     = Inr (CompositeSpace [VectorSpace 5 False, NullSpace, VectorSpace 2 False])"
  using restrict_selects_in_order
    [of "[-1, 1, 0]" "[VectorSpace 2 False, NullSpace, VectorSpace 5 False]"]
  by (simp add: py_nth_def)

subsection \<open>Batch size of a Conv2DSpace (C10)\<close>

lemma validate_Conv2DSpace_tensor:
  assumes "validate dbg (Conv2DSpace shp c ax) data = Inr u"
  shows "\<exists>a. data = TensorVar a \<and> ndim a = 4"
  using assms by (cases data) (auto split: if_splits)

text \<open>
  Claim C10. For every \<^verbatim>\<open>Conv2DSpace\<close> whose four axes include \<^verbatim>\<open>'b'\<close> and every
  batch valid under it, \<^verbatim>\<open>get_batch_size\<close> returns the extent of the batch along the
  position of \<^verbatim>\<open>'b'\<close> in the axes, \<^verbatim>\<open>shape[axes.index('b')]\<close>; for
  \<^verbatim>\<open>('c', 0, 1, 'b')\<close> that is the last axis.
\<close>

theorem Conv2DSpace_get_batch_size_axis:
  assumes "validate dbg (Conv2DSpace shp c ax) data = Inr ()"
    and "length ax = 4" and "tag_b \<in> set ax"
  shows "\<exists>a. data = TensorVar a \<and> ndim a = 4
           \<and> index ax tag_b = Inr (first_pos ax tag_b)
           \<and> get_batch_size dbg (Conv2DSpace shp c ax) data
               = Inr (int (ashape a ! first_pos ax tag_b))
           \<and> (ax = [tag_c, tag_0, tag_1, tag_b] \<longrightarrow>
                get_batch_size dbg (Conv2DSpace shp c ax) data = Inr (int (ashape a ! 3)))"
proof -
  from assms(1) obtain a where a: "data = TensorVar a" "ndim a = 4"
    using validate_Conv2DSpace_tensor by blast
  have pos: "first_pos ax tag_b < 4"
    using first_pos_less [OF assms(3)] assms(2) by simp
  have size: "get_batch_size dbg (Conv2DSpace shp c ax) data
               = Inr (int (ashape a ! first_pos ax tag_b))"
    using assms a pos
    by (simp add: batch_shape_def index_def getitem_def py_nth_def ndim_def)
  have last: "get_batch_size dbg (Conv2DSpace shp c ax) data = Inr (int (ashape a ! 3))"
    if "ax = [tag_c, tag_0, tag_1, tag_b]"
  proof -
    from that have "first_pos ax tag_b = 3" by simp
    with size show ?thesis by simp
  qed
  have "index ax tag_b = Inr (first_pos ax tag_b)"
    using assms(3) by (simp add: index_def)
  with a size last show ?thesis by blast
qed

text \<open>The theorem at \<^verbatim>\<open>('c', 0, 1, 'b')\<close> and a batch of seven examples.\<close>

theorem Conv2DSpace_get_batch_size_axis_witness:
  "get_batch_size True (Conv2DSpace (2, 3) 2 [tag_c, tag_0, tag_1, tag_b])
       (TensorVar (NDArray [2, 2, 3, 7] (replicate 84 (0::int)))) = Inr 7"
  using Conv2DSpace_get_batch_size_axis
    [of True "(2, 3)" 2 "[tag_c, tag_0, tag_1, tag_b]"
        "TensorVar (NDArray [2, 2, 3, 7] (replicate 84 (0::int)))"]
  by (simp add: ndim_def Conv2DSpace_validate_value_def index_def getitem_def py_nth_def)

end
